theory Spec2Isabelle
  imports Complex_Main
begin

section \<open>Regression with a spiking network: the notebook's model\<close>

text \<open>
  The notebook \<^verbatim>\<open>examples/tutorial_regression_1.ipynb\<close> defines a dataset class
  (\<^verbatim>\<open>RegressionDataset\<close>) and a three-stage network of leaky integrate-and-fire cells
  (\<^verbatim>\<open>Net\<close>) whose \<^verbatim>\<open>forward\<close> unrolls the stages over \<^verbatim>\<open>timesteps\<close> steps.

  Tensor entries are modelled as \<^typ>\<open>real\<close>: rounding of the 32-bit floats is abstracted
  away. A tensor of shape \<open>[B, n]\<close> is a list of \<open>B\<close> rows of \<open>n\<close> entries; the network input
  of shape \<open>[T, B, F]\<close> is a list of \<open>T\<close> such matrices. Every Python exception is a value
  of \<open>error\<close>, and a function that may raise returns \<open>error + 'a\<close>.
\<close>

subsection \<open>Errors\<close>

datatype error = IndexError | RuntimeError | NotImplementedError

definition ebind :: "error + 'a \<Rightarrow> ('a \<Rightarrow> error + 'b) \<Rightarrow> error + 'b" where
  "ebind m f = (case m of Inl e \<Rightarrow> Inl e | Inr v \<Rightarrow> f v)"

fun emap :: "('a \<Rightarrow> error + 'b) \<Rightarrow> 'a list \<Rightarrow> error + 'b list" where
  "emap f [] = Inr []"
| "emap f (x # xs) = ebind (f x) (\<lambda>y. ebind (emap f xs) (\<lambda>ys. Inr (y # ys)))"

type_synonym mat = "real list list"

subsection \<open>The LIF cell (\<^verbatim>\<open>snn.Leaky\<close>)\<close>

text \<open>
  The notebook constructs and calls \<^verbatim>\<open>snn.Leaky\<close> and \<^verbatim>\<open>surrogate.fast_sigmoid\<close>; their
  code is elsewhere in the repository. Everything in this subsection and the next two
  follows the spec's description of the cell.
\<close>

text \<open>
  Modelled from the spec: the reset modes of \<^verbatim>\<open>snn.Leaky\<close> (subtract the threshold on a
  spike, zero on a spike, no reset).
\<close>

datatype reset = Subtract | Zero | NoReset

text \<open>
  Modelled from the spec: \<^verbatim>\<open>surrogate.fast_sigmoid\<close>, the surrogate spike used in
  training. The spec describes it as a steep sigmoid of the candidate potential minus the
  threshold; \<open>slope\<close> is its steepness.
\<close>

definition surrogate_spike :: "real \<Rightarrow> real \<Rightarrow> real \<Rightarrow> real" where
  "surrogate_spike slope thr u = 1 / (1 + exp (- (slope * (u - thr))))"

text \<open>
  Modelled from the spec: the spike of one neuron of \<^verbatim>\<open>snn.Leaky\<close>. The forward spike
  decision is the hard step (1 when the candidate potential has reached the threshold,
  else 0); with \<open>train\<close> set it is the smooth surrogate that replaces the step in training,
  where gradients are computed.
\<close>

definition spike :: "bool \<Rightarrow> real \<Rightarrow> real \<Rightarrow> real \<Rightarrow> real" where
  "spike train slope thr cand =
     (if train then surrogate_spike slope thr cand
      else if thr \<le> cand then 1 else 0)"

text \<open>
  Modelled from the spec: the update of one neuron of \<^verbatim>\<open>snn.Leaky\<close>,
  \<open>step(input_current, prev_potential)\<close>, which gives the pair \<open>(spike, new_potential)\<close>.
  The candidate potential is \<open>beta * prev_potential + input_current\<close>, and the new
  potential follows the reset mode.
\<close>

definition lif_step ::
  "bool \<Rightarrow> real \<Rightarrow> reset \<Rightarrow> real \<Rightarrow> real \<Rightarrow> real \<Rightarrow> real \<Rightarrow> real \<times> real" where
  "lif_step train slope mode b thr input_current prev_potential =
     (let cand = b * prev_potential + input_current;
          spk = spike train slope thr cand;
          new = (case mode of
                   Subtract \<Rightarrow> cand - thr * spk
                 | Zero \<Rightarrow> cand * (1 - spk)
                 | NoReset \<Rightarrow> cand)
      in (spk, new))"

text \<open>
  Modelled from the spec: one neuron of \<^verbatim>\<open>snn.Leaky\<close> driven by a sequence of input
  currents, each step starting from the potential the step before has left; the new
  potentials are recorded.
\<close>

fun lif_run ::
  "bool \<Rightarrow> real \<Rightarrow> reset \<Rightarrow> real \<Rightarrow> real \<Rightarrow> real \<Rightarrow> real list \<Rightarrow> real list" where
  "lif_run train slope mode b thr prev [] = []"
| "lif_run train slope mode b thr prev (c # cs) =
     (let new = snd (lif_step train slope mode b thr c prev)
      in new # lif_run train slope mode b thr new cs)"

subsection \<open>Broadcasting of one-dimensional parameters\<close>

text \<open>
  The tensor library's broadcasting rule for the last dimension: lengths are compatible
  when they are equal or one of them is 1. \<open>bshape\<close> gives the common length of several
  operands, \<open>bget\<close> reads an operand at an index of the broadcast result.
\<close>

fun bshape :: "nat list \<Rightarrow> error + nat" where
  "bshape [] = Inr 1"
| "bshape (l # ls) =
     ebind (bshape ls)
       (\<lambda>n. if l = n \<or> l = 1 then Inr n else if n = 1 then Inr l else Inl RuntimeError)"

definition bget :: "real list \<Rightarrow> nat \<Rightarrow> real" where
  "bget v i = (if length v = 1 then hd v else v ! i)"

subsection \<open>The cell applied to a batch\<close>

text \<open>
  Modelled from the spec: the attributes of a \<^verbatim>\<open>snn.Leaky\<close> module. The decay rates and
  thresholds are one-dimensional tensors (one entry per neuron, or a single entry for all:
  the scalar threshold \<open>1.0\<close> is \<open>[1]\<close>); \<open>spike_grad\<close> is the slope of the surrogate given
  to the constructor.
\<close>

record Leaky =
  beta :: "real list"
  threshold :: "real list"
  reset_mechanism :: reset
  spike_grad :: real

text \<open>
  Modelled from the spec: a membrane potential held by \<^verbatim>\<open>forward\<close>. \<open>Fresh\<close> is what
  \<^verbatim>\<open>init_leaky()\<close> of \<^verbatim>\<open>snn.Leaky\<close> returns, \<open>Pot m\<close> a potential of shape \<open>[B, n]\<close>
  returned by a call of the cell.
\<close>

datatype potential = Fresh | Pot mat

text \<open>
  Modelled from the spec: \<^verbatim>\<open>init_leaky\<close> of \<^verbatim>\<open>snn.Leaky\<close>. It takes no argument, so the
  potential it returns has no shape of its own; the spec initialises the potential to
  zero.
\<close>

definition init_leaky :: "Leaky \<Rightarrow> potential" where
  "init_leaky c = Fresh"

definition zeros_like :: "mat \<Rightarrow> mat" where
  "zeros_like m = map (\<lambda>r. replicate (length r) 0) m"

text \<open>
  Modelled from the spec: how a call of \<^verbatim>\<open>snn.Leaky\<close> reads the potential it is given; a
  fresh potential is zeros of the shape of the input current.
\<close>

definition pot_of :: "potential \<Rightarrow> mat \<Rightarrow> mat" where
  "pot_of p cur = (case p of Fresh \<Rightarrow> zeros_like cur | Pot m \<Rightarrow> m)"

text \<open>
  Modelled from the spec: a call of \<^verbatim>\<open>snn.Leaky\<close> on one sample. The step is applied to
  every neuron; the per-neuron parameters are broadcast along the row. A call is a forward
  evaluation, in training and at inference alike: the spec has the surrogate used only
  during gradient computation, a different function in the forward spike decision than in
  the backward gradient. So the step is taken with the hard spike.
\<close>

definition lif_row :: "Leaky \<Rightarrow> real list \<Rightarrow> real list \<Rightarrow> error + (real list \<times> real list)" where
  "lif_row c cur prev =
     ebind (bshape [length (beta c), length (threshold c), length cur, length prev])
       (\<lambda>n. let rs = map (\<lambda>i. lif_step False (spike_grad c) (reset_mechanism c)
                               (bget (beta c) i) (bget (threshold c) i)
                               (bget cur i) (bget prev i)) [0..<n]
            in Inr (map fst rs, map snd rs))"

text \<open>
  Modelled from the spec: the call \<^verbatim>\<open>cell(cur, mem)\<close> of \<^verbatim>\<open>snn.Leaky\<close> on a batch, which
  returns the spikes and the new potential. The potential passed in comes from an earlier
  time slice of the same input tensor and so has the batch size of the current; a
  potential with another number of rows is refused.
\<close>

definition Leaky_forward :: "Leaky \<Rightarrow> mat \<Rightarrow> potential \<Rightarrow> error + (mat \<times> mat)" where
  "Leaky_forward c cur mem =
     (let prev = pot_of mem cur
      in if length prev \<noteq> length cur then Inl RuntimeError
         else ebind (emap (\<lambda>(r, p). lif_row c r p) (zip cur prev))
                (\<lambda>rs. Inr (map fst rs, map snd rs)))"

subsection \<open>The affine map (\<^verbatim>\<open>torch.nn.Linear\<close>)\<close>

text \<open>
  \<^verbatim>\<open>torch.nn.Linear\<close> is the tensor library's affine map \<open>y = x W\<^sup>T + b\<close> with a weight of
  shape \<open>[out_features, in_features]\<close> and a bias of shape \<open>[out_features]\<close>; an input
  whose last dimension is not \<open>in_features\<close> is refused.
\<close>

record Linear =
  in_features :: nat
  out_features :: nat
  weight :: "real list list"
  bias :: "real list"

definition dot :: "real list \<Rightarrow> real list \<Rightarrow> real" where
  "dot w x = sum_list (map2 (*) w x)"

definition Linear_row :: "Linear \<Rightarrow> real list \<Rightarrow> error + real list" where
  "Linear_row l row =
     (if length row = in_features l
      then Inr (map2 (\<lambda>w b. dot w row + b) (weight l) (bias l))
      else Inl RuntimeError)"

definition Linear_forward :: "Linear \<Rightarrow> mat \<Rightarrow> error + mat" where
  "Linear_forward l m = emap (Linear_row l) m"

subsection \<open>The network (\<^verbatim>\<open>Net\<close>)\<close>

text \<open>The attributes \<^verbatim>\<open>Net.__init__\<close> sets.\<close>

record Net =
  timesteps :: int
  hidden :: nat
  fc_in :: Linear
  lif_in :: Leaky
  fc_hidden :: Linear
  lif_hidden :: Leaky
  fc_out :: Linear
  li_out :: Leaky

text \<open>
  What \<^verbatim>\<open>__init__\<close> draws at random: the decay rates and thresholds from \<^verbatim>\<open>torch.rand\<close>,
  the weights and biases inside \<^verbatim>\<open>torch.nn.Linear\<close>.
\<close>

record init_values =
  beta_in :: "real list"
  thr_in :: "real list"
  w_in :: "real list list"
  b_in :: "real list"
  beta_hidden :: "real list"
  thr_hidden :: "real list"
  w_hidden :: "real list list"
  b_hidden :: "real list"
  beta_out :: "real list"
  w_out :: "real list list"
  b_out :: "real list"

text \<open>
  \<^verbatim>\<open>Net.__init__\<close>. Two values come from the library and are parameters here: the reset
  mode a cell has when none is given (\<open>default_reset\<close>) and the slope of
  \<^verbatim>\<open>surrogate.fast_sigmoid()\<close> (\<open>slope\<close>).
\<close>

definition Net_init :: "reset \<Rightarrow> real \<Rightarrow> int \<Rightarrow> nat \<Rightarrow> init_values \<Rightarrow> Net" where
  "Net_init default_reset slope timesteps' hidden' v =
     \<lparr>timesteps = timesteps',
      hidden = hidden',
      fc_in = \<lparr>in_features = 1, out_features = hidden', weight = w_in v, bias = b_in v\<rparr>,
      lif_in = \<lparr>beta = beta_in v, threshold = thr_in v, reset_mechanism = default_reset,
                spike_grad = slope\<rparr>,
      fc_hidden = \<lparr>in_features = hidden', out_features = hidden',
                   weight = w_hidden v, bias = b_hidden v\<rparr>,
      lif_hidden = \<lparr>beta = beta_hidden v, threshold = thr_hidden v,
                    reset_mechanism = default_reset, spike_grad = slope\<rparr>,
      fc_out = \<lparr>in_features = hidden', out_features = 1, weight = w_out v, bias = b_out v\<rparr>,
      li_out = \<lparr>beta = beta_out v, threshold = [1], reset_mechanism = NoReset,
                spike_grad = slope\<rparr>\<rparr>"

text \<open>The local variables of \<^verbatim>\<open>forward\<close>.\<close>

record fstate =
  mem_1 :: potential
  mem_2 :: potential
  mem_3 :: potential
  mem_3_rec :: "mat list"

definition init_state :: "Net \<Rightarrow> fstate" where
  "init_state net =
     \<lparr>mem_1 = init_leaky (lif_in net),
      mem_2 = init_leaky (lif_hidden net),
      mem_3 = init_leaky (li_out net),
      mem_3_rec = []\<rparr>"

text \<open>\<^verbatim>\<open>x[step, :, :]\<close> raises when \<open>step\<close> is not an index of the first dimension.\<close>

definition time_slice :: "mat list \<Rightarrow> nat \<Rightarrow> error + mat" where
  "time_slice x step = (if step < length x then Inr (x ! step) else Inl IndexError)"

text \<open>The body of the loop of \<^verbatim>\<open>forward\<close>, statement by statement.\<close>

definition step_body :: "Net \<Rightarrow> mat list \<Rightarrow> nat \<Rightarrow> fstate \<Rightarrow> error + fstate" where
  "step_body net x step s =
     ebind (time_slice x step) (\<lambda>x_timestep.
     ebind (Linear_forward (fc_in net) x_timestep) (\<lambda>cur_in.
     ebind (Leaky_forward (lif_in net) cur_in (mem_1 s)) (\<lambda>(spk_in, m1).
     ebind (Linear_forward (fc_hidden net) spk_in) (\<lambda>cur_hidden.
     ebind (Leaky_forward (li_out net) cur_hidden (mem_2 s)) (\<lambda>(spk_hidden, m2).
     ebind (Linear_forward (fc_out net) spk_hidden) (\<lambda>cur_out.
     ebind (Leaky_forward (li_out net) cur_out (mem_3 s)) (\<lambda>(spk_out, m3).
     Inr \<lparr>mem_1 = Pot m1, mem_2 = Pot m2, mem_3 = Pot m3,
          mem_3_rec = mem_3_rec s @ [m3]\<rparr>)))))))"

text \<open>\<^verbatim>\<open>for step in range(self.timesteps)\<close>, over the list of steps still to run.\<close>

fun loop :: "Net \<Rightarrow> mat list \<Rightarrow> nat list \<Rightarrow> fstate \<Rightarrow> error + fstate" where
  "loop net x [] s = Inr s"
| "loop net x (step # steps) s = ebind (step_body net x step s) (loop net x steps)"

text \<open>Python's \<^verbatim>\<open>range(n)\<close>: empty when \<open>n\<close> is zero or negative.\<close>

definition range_py :: "int \<Rightarrow> nat list" where
  "range_py n = [0..<nat n]"

text \<open>
  \<^verbatim>\<open>torch.stack\<close> refuses an empty list and tensors of different shapes.
\<close>

definition torch_stack :: "mat list \<Rightarrow> error + mat list" where
  "torch_stack ts =
     (case ts of
        [] \<Rightarrow> Inl RuntimeError
      | t # rest \<Rightarrow>
          if list_all (\<lambda>u. map length u = map length t) rest then Inr ts
          else Inl RuntimeError)"

text \<open>
  \<^verbatim>\<open>Net.forward\<close>: the potentials are initialised, the loop runs, the recorded potentials
  of the output stage are stacked.
\<close>

definition forward :: "Net \<Rightarrow> mat list \<Rightarrow> error + mat list" where
  "forward net x =
     ebind (loop net x (range_py (timesteps net)) (init_state net))
       (\<lambda>s. torch_stack (mem_3_rec s))"

text \<open>
  The pass started from given potentials instead of those of \<^verbatim>\<open>init_leaky()\<close>, and the
  state in which every potential is a tensor of zeros.
\<close>

definition forward_from :: "fstate \<Rightarrow> Net \<Rightarrow> mat list \<Rightarrow> error + mat list" where
  "forward_from s net x =
     ebind (loop net x (range_py (timesteps net)) s) (\<lambda>s'. torch_stack (mem_3_rec s'))"

definition zeros :: "nat \<Rightarrow> nat \<Rightarrow> mat" where
  "zeros B n = replicate B (replicate n 0)"

definition zero_state :: "nat \<Rightarrow> nat \<Rightarrow> fstate" where
  "zero_state B H =
     \<lparr>mem_1 = Pot (zeros B H), mem_2 = Pot (zeros B H), mem_3 = Pot (zeros B 1),
      mem_3_rec = []\<rparr>"

subsection \<open>The forward pass on a module that keeps state\<close>

text \<open>
  Modelled from the spec: what the three \<^verbatim>\<open>snn.Leaky\<close> modules hold between calls (the
  attribute \<^verbatim>\<open>mem\<close> of each). The spec has the potential mutated at every step; what a
  cell keeps of it is not visible in the notebook. In the model a cell keeps the potential
  of its last call, so that what an earlier pass has left is there for a later one.
\<close>

record Net_mem =
  mem_in :: potential
  mem_hidden :: potential
  mem_out :: potential

text \<open>
  Modelled from the spec: \<^verbatim>\<open>init_leaky\<close> of \<^verbatim>\<open>snn.Leaky\<close> on a cell that holds \<open>held\<close>.
  It returns the initial potential and leaves it in the cell.
\<close>

definition init_leaky_st :: "Leaky \<Rightarrow> potential \<Rightarrow> potential \<times> potential" where
  "init_leaky_st c held = (init_leaky c, init_leaky c)"

text \<open>
  Modelled from the spec: the call \<^verbatim>\<open>cell(cur, mem)\<close> of \<^verbatim>\<open>snn.Leaky\<close> on a cell that
  holds \<open>held\<close>. By the spec's contract the spikes and the new potential are those of the
  step on the arguments; the new potential is left in the cell.
\<close>

definition Leaky_call ::
  "Leaky \<Rightarrow> potential \<Rightarrow> mat \<Rightarrow> potential \<Rightarrow> error + (mat \<times> mat \<times> potential)" where
  "Leaky_call c held cur mem =
     ebind (Leaky_forward c cur mem) (\<lambda>(spk, new). Inr (spk, new, Pot new))"

text \<open>
  The body of the loop of \<^verbatim>\<open>forward\<close> with what the cells hold: the local variables and
  the three cells' potentials go in, and come out updated.
\<close>

definition step_body_st ::
  "Net \<Rightarrow> mat list \<Rightarrow> nat \<Rightarrow> fstate \<times> Net_mem \<Rightarrow> error + (fstate \<times> Net_mem)" where
  "step_body_st net x step sa =
     (case sa of (s, a) \<Rightarrow>
     ebind (time_slice x step) (\<lambda>x_timestep.
     ebind (Linear_forward (fc_in net) x_timestep) (\<lambda>cur_in.
     ebind (Leaky_call (lif_in net) (mem_in a) cur_in (mem_1 s)) (\<lambda>(spk_in, m1, h1).
     ebind (Linear_forward (fc_hidden net) spk_in) (\<lambda>cur_hidden.
     ebind (Leaky_call (li_out net) (mem_out a) cur_hidden (mem_2 s)) (\<lambda>(spk_hidden, m2, h2).
     ebind (Linear_forward (fc_out net) spk_hidden) (\<lambda>cur_out.
     ebind (Leaky_call (li_out net) h2 cur_out (mem_3 s)) (\<lambda>(spk_out, m3, h3).
     Inr (\<lparr>mem_1 = Pot m1, mem_2 = Pot m2, mem_3 = Pot m3,
           mem_3_rec = mem_3_rec s @ [m3]\<rparr>,
          a\<lparr>mem_in := h1, mem_out := h3\<rparr>)))))))))"

fun loop_st ::
  "Net \<Rightarrow> mat list \<Rightarrow> nat list \<Rightarrow> fstate \<times> Net_mem \<Rightarrow> error + (fstate \<times> Net_mem)" where
  "loop_st net x [] sa = Inr sa"
| "loop_st net x (step # steps) sa =
     ebind (step_body_st net x step sa) (loop_st net x steps)"

text \<open>
  \<^verbatim>\<open>Net.forward\<close> on a module whose cells hold \<open>a\<close>: it returns the output and leaves the
  cells holding what the pass has written.
\<close>

definition forward_st :: "Net \<Rightarrow> Net_mem \<Rightarrow> mat list \<Rightarrow> error + (mat list \<times> Net_mem)" where
  "forward_st net a x =
     (case init_leaky_st (lif_in net) (mem_in a) of (m1, h1) \<Rightarrow>
      case init_leaky_st (lif_hidden net) (mem_hidden a) of (m2, h2) \<Rightarrow>
      case init_leaky_st (li_out net) (mem_out a) of (m3, h3) \<Rightarrow>
        ebind (loop_st net x (range_py (timesteps net))
                 (\<lparr>mem_1 = m1, mem_2 = m2, mem_3 = m3, mem_3_rec = []\<rparr>,
                  \<lparr>mem_in = h1, mem_hidden = h2, mem_out = h3\<rparr>))
          (\<lambda>(s, a'). ebind (torch_stack (mem_3_rec s)) (\<lambda>ys. Inr (ys, a'))))"

text \<open>
  Successive calls on one module: each call starts with what the call before has left in
  the cells; an exception ends the sequence.
\<close>

fun calls_st ::
  "Net \<Rightarrow> Net_mem \<Rightarrow> mat list list \<Rightarrow> error + (mat list list \<times> Net_mem)" where
  "calls_st net a [] = Inr ([], a)"
| "calls_st net a (x # xs) =
     ebind (forward_st net a x) (\<lambda>(ys, a').
     ebind (calls_st net a' xs) (\<lambda>(yss, a''). Inr (ys # yss, a'')))"

text \<open>What a call returns, without the state it leaves.\<close>

definition returned :: "error + ('a \<times> 'b) \<Rightarrow> error + 'a" where
  "returned r = (case r of Inl e \<Rightarrow> Inl e | Inr (y, a) \<Rightarrow> Inr y)"

text \<open>Cells that hold potentials left by some earlier work, used as a concrete input.\<close>

definition held_ex :: Net_mem where
  "held_ex = \<lparr>mem_in = Pot [[7]], mem_hidden = Pot [[7]], mem_out = Pot [[7]]\<rparr>"

text \<open>
  The composition as the spec words it, for comparison with \<open>step_body\<close>: every stage
  computes its spikes with its own cell, so the hidden stage calls \<open>lif_hidden\<close>.
\<close>

definition step_body_spec :: "Net \<Rightarrow> mat list \<Rightarrow> nat \<Rightarrow> fstate \<Rightarrow> error + fstate" where
  "step_body_spec net x step s =
     ebind (time_slice x step) (\<lambda>x_timestep.
     ebind (Linear_forward (fc_in net) x_timestep) (\<lambda>cur_in.
     ebind (Leaky_forward (lif_in net) cur_in (mem_1 s)) (\<lambda>(spk_in, m1).
     ebind (Linear_forward (fc_hidden net) spk_in) (\<lambda>cur_hidden.
     ebind (Leaky_forward (lif_hidden net) cur_hidden (mem_2 s)) (\<lambda>(spk_hidden, m2).
     ebind (Linear_forward (fc_out net) spk_hidden) (\<lambda>cur_out.
     ebind (Leaky_forward (li_out net) cur_out (mem_3 s)) (\<lambda>(spk_out, m3).
     Inr \<lparr>mem_1 = Pot m1, mem_2 = Pot m2, mem_3 = Pot m3,
          mem_3_rec = mem_3_rec s @ [m3]\<rparr>)))))))"

fun loop_spec :: "Net \<Rightarrow> mat list \<Rightarrow> nat list \<Rightarrow> fstate \<Rightarrow> error + fstate" where
  "loop_spec net x [] s = Inr s"
| "loop_spec net x (step # steps) s =
     ebind (step_body_spec net x step s) (loop_spec net x steps)"

definition forward_spec :: "Net \<Rightarrow> mat list \<Rightarrow> error + mat list" where
  "forward_spec net x =
     ebind (loop_spec net x (range_py (timesteps net)) (init_state net))
       (\<lambda>s. torch_stack (mem_3_rec s))"

subsection \<open>Shapes\<close>

definition mat_shape :: "nat \<Rightarrow> nat \<Rightarrow> mat \<Rightarrow> bool" where
  "mat_shape B n m = (length m = B \<and> list_all (\<lambda>r. length r = n) m)"

definition Linear_ok :: "nat \<Rightarrow> nat \<Rightarrow> Linear \<Rightarrow> bool" where
  "Linear_ok i o' l =
     (in_features l = i \<and> out_features l = o' \<and> mat_shape o' i (weight l)
      \<and> length (bias l) = o')"

text \<open>
  The shapes \<^verbatim>\<open>__init__\<close> gives the parameters of the modules \<^verbatim>\<open>forward\<close> calls; training
  changes the entries, not the shapes.
\<close>

definition Net_ok :: "Net \<Rightarrow> bool" where
  "Net_ok net =
     (Linear_ok 1 (hidden net) (fc_in net)
      \<and> Linear_ok (hidden net) (hidden net) (fc_hidden net)
      \<and> Linear_ok (hidden net) 1 (fc_out net)
      \<and> length (beta (lif_in net)) = hidden net
      \<and> length (threshold (lif_in net)) = hidden net
      \<and> length (beta (li_out net)) = 1
      \<and> length (threshold (li_out net)) = 1)"

text \<open>An input tensor of shape \<open>[T, B, F]\<close>.\<close>

definition tensor_shape :: "nat \<Rightarrow> nat \<Rightarrow> nat \<Rightarrow> mat list \<Rightarrow> bool" where
  "tensor_shape T B F x = (length x = T \<and> list_all (mat_shape B F) x)"


subsection \<open>The dataset (\<^verbatim>\<open>RegressionDataset\<close>)\<close>

text \<open>
  \<^verbatim>\<open>torch.linspace(start, end, steps)\<close>: \<open>steps\<close> evenly spaced points from \<open>start\<close> to
  \<open>end\<close>; a negative \<open>steps\<close> is refused.
\<close>

definition linspace :: "real \<Rightarrow> real \<Rightarrow> int \<Rightarrow> error + real list" where
  "linspace start stop steps =
     (if steps < 0 then Inl RuntimeError
      else if steps = 1 then Inr [start]
      else Inr (map (\<lambda>i. start + real i * (stop - start) / real (nat steps - 1))
                  [0..<nat steps]))"

text \<open>
  \<^verbatim>\<open>torch.stack(feature_lst, dim=1)\<close> of tensors of shape \<open>[T, 1]\<close>: the result has shape
  \<open>[T, N, 1]\<close>; an empty list is refused.
\<close>

definition stack_dim1 :: "mat list \<Rightarrow> error + mat list" where
  "stack_dim1 fs =
     (case fs of
        [] \<Rightarrow> Inl RuntimeError
      | f # rest \<Rightarrow> Inr (map (\<lambda>t. map (\<lambda>g. g ! t) fs) [0..<length f]))"

definition tmap :: "(real \<Rightarrow> real) \<Rightarrow> mat list \<Rightarrow> mat list" where
  "tmap f x = map (map (map f)) x"

record RegressionDataset =
  num_samples :: int
  features :: "mat list"
  labels :: "mat list"

text \<open>
  \<^verbatim>\<open>RegressionDataset.__init__\<close>. \<open>rand k\<close> is the value of the \<open>k\<close>-th call of
  \<^verbatim>\<open>torch.rand(1)\<close>: one call per sample for the end points, then one for the slope.
\<close>

definition RegressionDataset_init ::
  "(nat \<Rightarrow> real) \<Rightarrow> int \<Rightarrow> int \<Rightarrow> string \<Rightarrow> error + RegressionDataset" where
  "RegressionDataset_init rand timesteps' num_samples' mode =
     ebind (emap (\<lambda>idx. ebind (linspace 0 (rand idx) timesteps')
                           (\<lambda>lin_vec. Inr (map (\<lambda>v. [v]) lin_vec)))
              (range_py num_samples')) (\<lambda>feature_lst.
     ebind (stack_dim1 feature_lst) (\<lambda>features'.
     if mode = ''linear'' then
       Inr \<lparr>num_samples = num_samples', features = features',
            labels = tmap (\<lambda>v. v * 1) features'\<rparr>
     else if mode = ''sqrt'' then
       (let slope = rand (length (range_py num_samples'))
        in Inr \<lparr>num_samples = num_samples', features = features',
                labels = tmap (\<lambda>v. sqrt (v * slope)) features'\<rparr>)
     else Inl NotImplementedError))"

text \<open>\<^verbatim>\<open>RegressionDataset.__len__\<close>.\<close>

definition len :: "RegressionDataset \<Rightarrow> int" where
  "len d = num_samples d"

text \<open>A stream of random draws used as a concrete input: every draw is \<open>1/2\<close>.\<close>

definition rand_ex :: "nat \<Rightarrow> real" where
  "rand_ex k = 1/2"

subsection \<open>Predicates on shapes and values used in the proofs\<close>

definition pot_shape :: "nat \<Rightarrow> nat \<Rightarrow> potential \<Rightarrow> bool" where
  "pot_shape B n p = (case p of Fresh \<Rightarrow> True | Pot m \<Rightarrow> mat_shape B n m)"

definition state_shape :: "nat \<Rightarrow> nat \<Rightarrow> fstate \<Rightarrow> bool" where
  "state_shape B H s =
     (pot_shape B H (mem_1 s) \<and> pot_shape B H (mem_2 s) \<and> pot_shape B 1 (mem_3 s)
      \<and> list_all (mat_shape B 1) (mem_3_rec s))"

definition cell_shape :: "nat \<Rightarrow> Leaky \<Rightarrow> bool" where
  "cell_shape n c = ((length (beta c) = n \<or> length (beta c) = 1)
      \<and> (length (threshold c) = n \<or> length (threshold c) = 1))"






subsection \<open>Concrete networks\<close>

text \<open>A network with one hidden neuron, unrolled over one step, used as a concrete input.\<close>

definition values_ex :: init_values where
  "values_ex =
     \<lparr>beta_in = [1/2], thr_in = [1/2], w_in = [[1]], b_in = [0],
      beta_hidden = [1/2], thr_hidden = [1/2], w_hidden = [[4/5]], b_hidden = [0],
      beta_out = [1/2], w_out = [[1]], b_out = [0]\<rparr>"

definition net_ex :: Net where
  "net_ex = Net_init Subtract 25 1 1 values_ex"

text \<open>The same network with a bias of \<open>1/2\<close> in the output stage's affine map.\<close>

definition net_bias :: Net where
  "net_bias = Net_init Subtract 25 1 1 (values_ex\<lparr>b_out := [1/2]\<rparr>)"

text \<open>
  The network without any bias, but with threshold \<open>0\<close> in the input stage and a hidden
  weight of \<open>2\<close>.
\<close>

definition net_rest :: Net where
  "net_rest = Net_init Subtract 25 1 1 (values_ex\<lparr>thr_in := [0], w_hidden := [[2]]\<rparr>)"

section \<open>Properties of the LIF cell\<close>

text \<open>
  C2. With reset mode "none" the new potential of a step is
  \<open>beta * prev_potential + input_current\<close>, for every input, whatever the spike is
  (hard or surrogate, fired or not); the output cell \<open>li_out\<close> is constructed with this
  reset mode.
\<close>

theorem lif_step_none:
  "snd (lif_step train slope NoReset b thr input_current prev_potential)
     = b * prev_potential + input_current
   \<and> reset_mechanism (li_out (Net_init default_reset slope' T H v)) = NoReset"
  by (simp add: lif_step_def Let_def Net_init_def)

text \<open>
  C3. One cell with \<open>beta = 0.5\<close>, threshold \<open>1.0\<close>, reset mode "none", initial potential
  \<open>0.0\<close> and input currents \<open>[2.0, 0.0, 0.0]\<close> has the potentials \<open>[2.0, 1.0, 0.5]\<close>.
\<close>

theorem lif_run_decay:
  "lif_run train slope NoReset (1/2) 1 0 [2, 0, 0] = [2, 1, 1/2]"
  by (simp add: lif_step_def Let_def)

subsection \<open>The surrogate spike\<close>

lemma surrogate_spike_bounds: "0 < surrogate_spike slope thr u \<and> surrogate_spike slope thr u < 1"
proof -
  define e where "e = exp (- (slope * (u - thr)))"
  have e: "0 < e" by (simp add: e_def)
  hence "0 < 1 / (1 + e)" by simp
  moreover from e have "1 / (1 + e) < 1" by simp
  ultimately show ?thesis by (simp add: surrogate_spike_def e_def)
qed

lemma surrogate_spike_mono:
  assumes "0 < slope" "u \<le> v"
  shows "surrogate_spike slope thr u \<le> surrogate_spike slope thr v"
proof -
  have "slope * (u - thr) \<le> slope * (v - thr)" using assms by simp
  hence "exp (- (slope * (v - thr))) \<le> exp (- (slope * (u - thr)))" by simp
  moreover have "0 < 1 + exp (- (slope * (v - thr)))" by (simp add: add_pos_pos)
  ultimately show ?thesis unfolding surrogate_spike_def
    by (intro divide_left_mono) (simp_all add: add_pos_pos)
qed

lemma surrogate_spike_at_top:
  assumes "0 < slope"
  shows "(surrogate_spike slope thr \<longlongrightarrow> 1) at_top"
proof -
  have "LIM u at_top. - thr + u :> at_top"
    by (rule filterlim_tendsto_add_at_top[OF tendsto_const filterlim_ident])
  hence "LIM u at_top. slope * (- thr + u) :> at_top"
    by (rule filterlim_tendsto_pos_mult_at_top[OF tendsto_const assms])
  hence "LIM u at_top. - (slope * (u - thr)) :> at_bot"
    by (simp add: filterlim_uminus_at_top[symmetric])
  hence "((\<lambda>u. exp (- (slope * (u - thr)))) \<longlongrightarrow> 0) at_top"
    by (rule filterlim_compose[OF exp_at_bot])
  hence "((\<lambda>u. 1 / (1 + exp (- (slope * (u - thr))))) \<longlongrightarrow> 1 / (1 + 0)) at_top"
    by (intro tendsto_intros) simp_all
  thus ?thesis by (simp add: surrogate_spike_def[abs_def])
qed

lemma surrogate_spike_at_bot:
  assumes "0 < slope"
  shows "(surrogate_spike slope thr \<longlongrightarrow> 0) at_bot"
proof -
  have "LIM u at_bot. - thr + u :> at_bot"
    by (rule iffD2[OF filterlim_tendsto_add_at_bot_iff[OF tendsto_const] filterlim_ident])
  hence "LIM u at_bot. slope * (- thr + u) :> at_bot"
    by (rule filterlim_tendsto_pos_mult_at_bot[OF tendsto_const assms])
  hence "LIM u at_bot. - (slope * (u - thr)) :> at_top"
    by (simp add: filterlim_uminus_at_bot[symmetric])
  hence "LIM u at_bot. exp (- (slope * (u - thr))) :> at_top"
    by (rule filterlim_compose[OF exp_at_top])
  hence "LIM u at_bot. 1 + exp (- (slope * (u - thr))) :> at_top"
    by (rule filterlim_tendsto_add_at_top[OF tendsto_const])
  hence "((\<lambda>u. inverse (1 + exp (- (slope * (u - thr))))) \<longlongrightarrow> 0) at_bot"
    by (rule tendsto_inverse_0_at_top)
  thus ?thesis by (simp add: surrogate_spike_def[abs_def] inverse_eq_divide)
qed

text \<open>
  C7. For a positive slope the surrogate spike is monotonic in the candidate potential,
  lies strictly between 0 and 1 at every input (so it is bounded in \<open>[0, 1]\<close> and strictly
  inside near the threshold, where it is \<open>1/2\<close>), tends to 0 far below the threshold and to
  1 far above.
\<close>

theorem surrogate_spike_sigmoid:
  assumes "0 < slope"
  shows "(\<forall>u v. u \<le> v \<longrightarrow> surrogate_spike slope thr u \<le> surrogate_spike slope thr v)
    \<and> (\<forall>u. 0 < surrogate_spike slope thr u \<and> surrogate_spike slope thr u < 1)
    \<and> surrogate_spike slope thr thr = 1/2
    \<and> (surrogate_spike slope thr \<longlongrightarrow> 0) at_bot
    \<and> (surrogate_spike slope thr \<longlongrightarrow> 1) at_top"
proof -
  have "surrogate_spike slope thr thr = 1/2" by (simp add: surrogate_spike_def)
  thus ?thesis
    using surrogate_spike_mono[OF assms] surrogate_spike_bounds
      surrogate_spike_at_bot[OF assms] surrogate_spike_at_top[OF assms]
    by blast
qed

theorem surrogate_spike_sigmoid_witness:
  "(0::real) < 25
   \<and> surrogate_spike 25 1 0 \<le> surrogate_spike 25 1 2
   \<and> 0 < surrogate_spike 25 1 (9/10) \<and> surrogate_spike 25 1 (11/10) < 1
   \<and> surrogate_spike 25 1 1 = 1/2
   \<and> (surrogate_spike 25 1 \<longlongrightarrow> 0) at_bot
   \<and> (surrogate_spike 25 1 \<longlongrightarrow> 1) at_top"
proof -
  have h: "(0::real) < 25" by simp
  have "(0::real) \<le> 2" by simp
  with h surrogate_spike_sigmoid[OF h, of 1] show ?thesis by blast
qed

section \<open>Shapes are preserved\<close>

lemma emap_Inr:
  "(\<And>x. x \<in> set xs \<Longrightarrow> f x = Inr (g x)) \<Longrightarrow> emap f xs = Inr (map g xs)"
  by (induction xs) (simp_all add: ebind_def)

lemma mat_shape_iff: "mat_shape B n m \<longleftrightarrow> length m = B \<and> (\<forall>r\<in>set m. length r = n)"
  by (simp add: mat_shape_def list_all_iff)

lemma Linear_forward_shape:
  assumes "Linear_ok i k l" "mat_shape B i m"
  shows "\<exists>m'. Linear_forward l m = Inr m' \<and> mat_shape B k m'"
proof -
  let ?g = "\<lambda>row. map2 (\<lambda>w b. dot w row + b) (weight l) (bias l)"
  have "\<And>row. row \<in> set m \<Longrightarrow> Linear_row l row = Inr (?g row)"
    using assms by (simp add: Linear_row_def Linear_ok_def mat_shape_iff)
  hence "Linear_forward l m = Inr (map ?g m)"
    unfolding Linear_forward_def by (rule emap_Inr)
  moreover have "mat_shape B k (map ?g m)"
    using assms by (simp add: Linear_ok_def mat_shape_iff)
  ultimately show ?thesis by blast
qed

lemma bshape4:
  assumes "lb = n \<or> lb = 1" "lt = n \<or> lt = 1"
  shows "bshape [lb, lt, n, n] = Inr n"
  using assms by (auto simp: ebind_def)

lemma lif_row_shape:
  assumes "cell_shape n c" "length cur = n" "length prev = n"
  shows "\<exists>spk new. lif_row c cur prev = Inr (spk, new) \<and> length spk = n \<and> length new = n"
  using assms bshape4[of "length (beta c)" n "length (threshold c)"]
  by (simp add: lif_row_def cell_shape_def ebind_def Let_def)


lemma pot_of_shape:
  assumes "mat_shape B n cur" "pot_shape B n mem"
  shows "mat_shape B n (pot_of mem cur)"
  using assms by (cases mem) (simp_all add: pot_of_def pot_shape_def zeros_like_def mat_shape_iff)

lemma Leaky_forward_shape:
  assumes "cell_shape n c" "mat_shape B n cur" "pot_shape B n mem"
  shows "\<exists>spk new. Leaky_forward c cur mem = Inr (spk, new)
           \<and> mat_shape B n spk \<and> mat_shape B n new"
proof -
  let ?prev = "pot_of mem cur"
  have p: "mat_shape B n ?prev" using assms by (simp add: pot_of_shape)
  let ?g = "\<lambda>(r, p). case lif_row c r p of Inr v \<Rightarrow> v"
  have rows: "\<And>rp. rp \<in> set (zip cur ?prev) \<Longrightarrow>
      (case rp of (r, p) \<Rightarrow> lif_row c r p) = Inr (?g rp)
      \<and> length (fst (?g rp)) = n \<and> length (snd (?g rp)) = n"
  proof -
    fix rp assume a: "rp \<in> set (zip cur ?prev)"
    obtain r q where rp: "rp = (r, q)" by (cases rp)
    with a have "r \<in> set cur" "q \<in> set ?prev"
      by (auto dest: set_zip_leftD set_zip_rightD)
    hence "length r = n" "length q = n" using assms(2) p by (simp_all add: mat_shape_iff)
    from lif_row_shape[OF assms(1) this] rp
    show "(case rp of (r, p) \<Rightarrow> lif_row c r p) = Inr (?g rp)
      \<and> length (fst (?g rp)) = n \<and> length (snd (?g rp)) = n" by auto
  qed
  hence "emap (\<lambda>(r, p). lif_row c r p) (zip cur ?prev) = Inr (map ?g (zip cur ?prev))"
    by (intro emap_Inr) blast
  moreover have "length ?prev = length cur" using p assms(2) by (simp add: mat_shape_iff)
  ultimately have "Leaky_forward c cur mem =
      Inr (map fst (map ?g (zip cur ?prev)), map snd (map ?g (zip cur ?prev)))"
    by (simp add: Leaky_forward_def Let_def ebind_def)
  moreover have "mat_shape B n (map fst (map ?g (zip cur ?prev)))"
    using rows p assms(2) by (simp add: mat_shape_iff)
  moreover have "mat_shape B n (map snd (map ?g (zip cur ?prev)))"
    using rows p assms(2) by (simp add: mat_shape_iff)
  ultimately show ?thesis by blast
qed

lemma Net_ok_cells:
  assumes "Net_ok net"
  shows "cell_shape (hidden net) (lif_in net)" "cell_shape (hidden net) (li_out net)"
    "cell_shape 1 (li_out net)"
  using assms by (simp_all add: Net_ok_def cell_shape_def)

lemma step_body_shape:
  assumes ok: "Net_ok net" and i: "step < length x" and xs: "mat_shape B 1 (x ! step)"
    and s: "state_shape B (hidden net) s"
  shows "\<exists>s'. step_body net x step s = Inr s' \<and> state_shape B (hidden net) s'
            \<and> length (mem_3_rec s') = Suc (length (mem_3_rec s))"
proof -
  let ?H = "hidden net"
  have t: "time_slice x step = Inr (x ! step)" using i by (simp add: time_slice_def)
  from ok have l1: "Linear_ok 1 ?H (fc_in net)" and l2: "Linear_ok ?H ?H (fc_hidden net)"
    and l3: "Linear_ok ?H 1 (fc_out net)" by (simp_all add: Net_ok_def)
  from s have p1: "pot_shape B ?H (mem_1 s)" and p2: "pot_shape B ?H (mem_2 s)"
    and p3: "pot_shape B 1 (mem_3 s)" and r: "list_all (mat_shape B 1) (mem_3_rec s)"
    by (simp_all add: state_shape_def)
  from Linear_forward_shape[OF l1 xs] obtain cur_in
    where a1: "Linear_forward (fc_in net) (x ! step) = Inr cur_in" and b1: "mat_shape B ?H cur_in"
    by blast
  from Leaky_forward_shape[OF Net_ok_cells(1)[OF ok] b1 p1] obtain spk_in m1
    where a2: "Leaky_forward (lif_in net) cur_in (mem_1 s) = Inr (spk_in, m1)"
      and b2: "mat_shape B ?H spk_in" and c2: "mat_shape B ?H m1" by blast
  from Linear_forward_shape[OF l2 b2] obtain cur_hidden
    where a3: "Linear_forward (fc_hidden net) spk_in = Inr cur_hidden"
      and b3: "mat_shape B ?H cur_hidden" by blast
  from Leaky_forward_shape[OF Net_ok_cells(2)[OF ok] b3 p2] obtain spk_hidden m2
    where a4: "Leaky_forward (li_out net) cur_hidden (mem_2 s) = Inr (spk_hidden, m2)"
      and b4: "mat_shape B ?H spk_hidden" and c4: "mat_shape B ?H m2" by blast
  from Linear_forward_shape[OF l3 b4] obtain cur_out
    where a5: "Linear_forward (fc_out net) spk_hidden = Inr cur_out"
      and b5: "mat_shape B 1 cur_out" by blast
  from Leaky_forward_shape[OF Net_ok_cells(3)[OF ok] b5 p3] obtain spk_out m3
    where a6: "Leaky_forward (li_out net) cur_out (mem_3 s) = Inr (spk_out, m3)"
      and c6: "mat_shape B 1 m3" by blast
  have "step_body net x step s =
      Inr \<lparr>mem_1 = Pot m1, mem_2 = Pot m2, mem_3 = Pot m3, mem_3_rec = mem_3_rec s @ [m3]\<rparr>"
    by (simp add: step_body_def ebind_def t a1 a2 a3 a4 a5 a6)
  moreover have "state_shape B ?H
      \<lparr>mem_1 = Pot m1, mem_2 = Pot m2, mem_3 = Pot m3, mem_3_rec = mem_3_rec s @ [m3]\<rparr>"
    using c2 c4 c6 r by (simp add: state_shape_def pot_shape_def)
  ultimately show ?thesis by simp
qed

lemma loop_shape:
  assumes ok: "Net_ok net" and x: "list_all (mat_shape B 1) x"
  shows "\<lbrakk>\<forall>i\<in>set steps. i < length x; state_shape B (hidden net) s\<rbrakk> \<Longrightarrow>
     \<exists>s'. loop net x steps s = Inr s' \<and> state_shape B (hidden net) s'
        \<and> length (mem_3_rec s') = length (mem_3_rec s) + length steps"
proof (induction steps arbitrary: s)
  case Nil
  thus ?case by simp
next
  case (Cons i steps)
  hence i: "i < length x" by simp
  hence "mat_shape B 1 (x ! i)" using x by (simp add: list_all_length)
  from step_body_shape[OF ok i this Cons.prems(2)] obtain s1
    where a: "step_body net x i s = Inr s1" and b: "state_shape B (hidden net) s1"
      and c: "length (mem_3_rec s1) = Suc (length (mem_3_rec s))" by blast
  from Cons.IH[OF _ b] Cons.prems(1) obtain s'
    where "loop net x steps s1 = Inr s'" "state_shape B (hidden net) s'"
      "length (mem_3_rec s') = length (mem_3_rec s1) + length steps" by auto
  thus ?case using a c by (simp add: ebind_def)
qed

lemma torch_stack_shape:
  assumes "ts \<noteq> []" "list_all (mat_shape B n) ts"
  shows "torch_stack ts = Inr ts"
proof -
  have "\<And>u. u \<in> set ts \<Longrightarrow> map length u = replicate B n"
    using assms(2) by (auto simp: list_all_iff mat_shape_iff map_replicate_const[symmetric] intro: map_cong)
  thus ?thesis using assms(1)
    by (cases ts) (simp_all add: torch_stack_def list_all_iff)
qed

lemma init_state_shape: "state_shape B H (init_state net)"
  by (simp add: state_shape_def init_state_def init_leaky_def pot_shape_def)

section \<open>Properties of the forward pass\<close>

subsection \<open>Length of the output\<close>

lemmas unfold_forward =
  forward_def forward_spec_def range_py_def init_state_def init_leaky_def
  step_body_def step_body_spec_def ebind_def time_slice_def Linear_forward_def Linear_row_def
  dot_def Leaky_forward_def pot_of_def zeros_like_def lif_row_def bget_def lif_step_def
  spike_def torch_stack_def Let_def

lemmas unfold_net_ex = net_ex_def net_bias_def net_rest_def Net_init_def values_ex_def

text \<open>
  C4 (as amended). For a network with the shapes of the constructor, a number of time
  steps \<open>timesteps \<ge> 1\<close> and an input tensor of shape \<open>[T, B, 1]\<close> with at least
  \<open>timesteps\<close> time slices, the forward pass returns an output whose length is
  \<open>timesteps\<close>.
\<close>

theorem forward_length:
  assumes "Net_ok net" "0 < timesteps net" "tensor_shape T B 1 x" "nat (timesteps net) \<le> T"
  shows "\<exists>ys. forward net x = Inr ys \<and> int (length ys) = timesteps net"
proof -
  have x: "list_all (mat_shape B 1) x" and T: "length x = T"
    using assms(3) by (simp_all add: tensor_shape_def)
  have "\<forall>i\<in>set (range_py (timesteps net)). i < length x"
    using assms(4) T by (simp add: range_py_def)
  from loop_shape[OF assms(1) x this init_state_shape] obtain s'
    where a: "loop net x (range_py (timesteps net)) (init_state net) = Inr s'"
      and b: "state_shape B (hidden net) s'"
      and c: "length (mem_3_rec s') = length (mem_3_rec (init_state net)) + length (range_py (timesteps net))"
    by blast
  from c have len: "length (mem_3_rec s') = nat (timesteps net)"
    by (simp add: init_state_def range_py_def)
  hence "mem_3_rec s' \<noteq> []" using assms(2) by auto
  moreover have "list_all (mat_shape B 1) (mem_3_rec s')" using b by (simp add: state_shape_def)
  ultimately have "torch_stack (mem_3_rec s') = Inr (mem_3_rec s')" by (rule torch_stack_shape)
  thus ?thesis using a len assms(2) by (simp add: forward_def ebind_def)
qed

theorem forward_length_witness:
  "Net_ok net_ex \<and> 0 < timesteps net_ex \<and> tensor_shape 1 1 1 [[[1]]]
   \<and> nat (timesteps net_ex) \<le> 1
   \<and> (\<exists>ys. forward net_ex [[[1]]] = Inr ys \<and> int (length ys) = timesteps net_ex)"
proof -
  have h: "Net_ok net_ex" "0 < timesteps net_ex" "tensor_shape 1 1 1 [[[1]]]"
    "nat (timesteps net_ex) \<le> 1"
    by (simp_all add: unfold_net_ex Net_ok_def Linear_ok_def mat_shape_def tensor_shape_def)
  from h forward_length[OF h] show ?thesis by blast
qed

text \<open>
  The claim as stated fails: with \<open>timesteps = 0\<close> the list of recorded potentials is
  empty and stacking it raises; with fewer time slices than \<open>timesteps\<close> the indexing of
  the input raises.
\<close>

theorem forward_length_counterexample:
  "forward (net_ex\<lparr>timesteps := 0\<rparr>) [[[1]]] = Inl RuntimeError
   \<and> forward (net_ex\<lparr>timesteps := 2\<rparr>) [[[1]]] = Inl IndexError"
  by (simp add: unfold_net_ex unfold_forward numeral_2_eq_2)

subsection \<open>The hidden stage\<close>

text \<open>
  C1. The spec has every stage compute its spikes with its own cell. The code calls the
  output cell \<open>li_out\<close> for the hidden stage: on the network \<open>net_ex\<close> and the input
  \<open>[[[1]]]\<close> the hidden current \<open>4/5\<close> stays below the output cell's threshold \<open>1\<close>, no
  hidden spike is emitted and the recorded potential is \<open>0\<close>; with the hidden cell's own
  threshold \<open>1/2\<close>, as the spec words it, the hidden neuron fires and the potential is \<open>1\<close>.
\<close>

theorem forward_hidden_stage_differs:
  "forward net_ex [[[1]]] = Inr [[[0]]] \<and> forward_spec net_ex [[[1]]] = Inr [[[1]]]"
  by (simp add: unfold_net_ex unfold_forward)

lemma step_body_lif_hidden:
  "step_body (net\<lparr>lif_hidden := c\<rparr>) x step s = step_body net x step s"
  by (simp add: step_body_def)

lemma loop_lif_hidden: "loop (net\<lparr>lif_hidden := c\<rparr>) x steps s = loop net x steps s"
  by (induction steps arbitrary: s)
    (simp_all add: step_body_lif_hidden ebind_def split: sum.splits)

lemma step_body_spec_li_out:
  "step_body_spec (net\<lparr>lif_hidden := li_out net\<rparr>) x step s = step_body net x step s"
  by (simp add: step_body_def step_body_spec_def)

lemma loop_spec_li_out:
  "loop_spec (net\<lparr>lif_hidden := li_out net\<rparr>) x steps s = loop net x steps s"
  by (induction steps arbitrary: s)
    (simp_all add: step_body_spec_li_out ebind_def split: sum.splits)

text \<open>
  C8. The cell \<open>lif_hidden\<close> is never called by the forward pass: the result is the same
  whatever cell stands in that field, and it is the result of the composition in which the
  hidden stage calls the output cell \<open>li_out\<close>. The only use of \<open>lif_hidden\<close> is the
  initial value of the hidden potential.
\<close>

theorem forward_ignores_lif_hidden:
  "forward (net\<lparr>lif_hidden := c\<rparr>) x = forward net x
   \<and> forward net x = forward_spec (net\<lparr>lif_hidden := li_out net\<rparr>) x
   \<and> mem_2 (init_state net) = init_leaky (lif_hidden net)"
  by (simp add: forward_def forward_spec_def loop_lif_hidden loop_spec_li_out init_state_def
      init_leaky_def)

subsection \<open>Only the first time slices are read\<close>

lemma time_slice_take:
  assumes "take n x = take n x'" "i < n"
  shows "time_slice x i = time_slice x' i"
proof -
  have "length (take n x) = length (take n x')" using assms(1) by simp
  hence l: "i < length x \<longleftrightarrow> i < length x'" using assms(2) by auto
  have "i < length x \<Longrightarrow> x ! i = x' ! i"
    using assms l by (metis nth_take)
  with l show ?thesis by (auto simp: time_slice_def)
qed

lemma loop_take:
  assumes "take n x = take n x'" "\<forall>i\<in>set steps. i < n"
  shows "loop net x steps s = loop net x' steps s"
  using assms(2)
proof (induction steps arbitrary: s)
  case Nil
  thus ?case by simp
next
  case (Cons i steps)
  have "step_body net x i s = step_body net x' i s"
    using time_slice_take[OF assms(1), of i] Cons.prems by (simp add: step_body_def)
  thus ?case using Cons by (simp add: ebind_def split: sum.splits)
qed

text \<open>
  C10. The result of the forward pass depends only on the first \<open>timesteps\<close> time slices of
  the input: two inputs that agree there give the same result (the same output or the
  same error), whatever follows.
\<close>

theorem forward_first_timesteps:
  assumes "take (nat (timesteps net)) x = take (nat (timesteps net)) x'"
  shows "forward net x = forward net x'"
proof -
  have "loop net x (range_py (timesteps net)) (init_state net)
      = loop net x' (range_py (timesteps net)) (init_state net)"
    by (rule loop_take[OF assms]) (simp add: range_py_def)
  thus ?thesis by (simp add: forward_def)
qed

theorem forward_first_timesteps_witness:
  "take (nat (timesteps net_ex)) [[[1::real]]] = take (nat (timesteps net_ex)) [[[1]], [[5]]]
   \<and> forward net_ex [[[1]]] = forward net_ex [[[1]], [[5]]]"
proof -
  have h: "take (nat (timesteps net_ex)) [[[1]]]
      = take (nat (timesteps net_ex)) [[[1::real]], [[5]]]"
    by (simp add: unfold_net_ex)
  from h forward_first_timesteps[OF h] show ?thesis by (rule conjI)
qed

subsection \<open>The pass is a function of the parameters and the input\<close>

lemma zeros_like_shape: "mat_shape B n cur \<Longrightarrow> zeros_like cur = zeros B n"
  unfolding zeros_like_def zeros_def
  by (rule replicate_eqI[where n=B]) (auto simp: mat_shape_iff)

lemma Leaky_forward_Fresh:
  "mat_shape B n cur \<Longrightarrow> Leaky_forward c cur Fresh = Leaky_forward c cur (Pot (zeros B n))"
  by (simp add: Leaky_forward_def pot_of_def zeros_like_shape)

lemma step_body_zero_state:
  assumes ok: "Net_ok net" and xs: "list_all (mat_shape B 1) x"
  shows "step_body net x step
           \<lparr>mem_1 = Fresh, mem_2 = Fresh, mem_3 = Fresh, mem_3_rec = r\<rparr>
       = step_body net x step
           \<lparr>mem_1 = Pot (zeros B (hidden net)), mem_2 = Pot (zeros B (hidden net)),
            mem_3 = Pot (zeros B 1), mem_3_rec = r\<rparr>"
proof (cases "step < length x")
  case False
  thus ?thesis by (simp add: step_body_def time_slice_def ebind_def)
next
  case True
  let ?H = "hidden net"
  have t: "time_slice x step = Inr (x ! step)" using True by (simp add: time_slice_def)
  have x: "mat_shape B 1 (x ! step)" using xs True by (simp add: list_all_length)
  from ok have l1: "Linear_ok 1 ?H (fc_in net)" and l2: "Linear_ok ?H ?H (fc_hidden net)"
    and l3: "Linear_ok ?H 1 (fc_out net)" by (simp_all add: Net_ok_def)
  from Linear_forward_shape[OF l1 x] obtain cur_in
    where a1: "Linear_forward (fc_in net) (x ! step) = Inr cur_in"
      and b1: "mat_shape B ?H cur_in" by blast
  have p: "pot_shape B ?H Fresh" "pot_shape B 1 Fresh" by (simp_all add: pot_shape_def)
  from Leaky_forward_shape[OF Net_ok_cells(1)[OF ok] b1 p(1)] obtain spk_in m1
    where a2: "Leaky_forward (lif_in net) cur_in Fresh = Inr (spk_in, m1)"
      and b2: "mat_shape B ?H spk_in" by blast
  from Linear_forward_shape[OF l2 b2] obtain cur_hidden
    where a3: "Linear_forward (fc_hidden net) spk_in = Inr cur_hidden"
      and b3: "mat_shape B ?H cur_hidden" by blast
  from Leaky_forward_shape[OF Net_ok_cells(2)[OF ok] b3 p(1)] obtain spk_hidden m2
    where a4: "Leaky_forward (li_out net) cur_hidden Fresh = Inr (spk_hidden, m2)"
      and b4: "mat_shape B ?H spk_hidden" by blast
  from Linear_forward_shape[OF l3 b4] obtain cur_out
    where a5: "Linear_forward (fc_out net) spk_hidden = Inr cur_out"
      and b5: "mat_shape B 1 cur_out" by blast
  note z2 = Leaky_forward_Fresh[OF b1, of "lif_in net"]
  note z4 = Leaky_forward_Fresh[OF b3, of "li_out net"]
  note z6 = Leaky_forward_Fresh[OF b5, of "li_out net"]
  show ?thesis
    by (simp only: step_body_def ebind_def t a1 a3 a5 z2[symmetric] z4[symmetric] z6[symmetric]
        a2 a4 sum.case prod.case fstate.simps)
qed

lemma forward_zero_state:
  assumes ok: "Net_ok net" and x: "tensor_shape T B 1 x"
  shows "forward net x = forward_from (zero_state B (hidden net)) net x"
proof (cases "range_py (timesteps net)")
  case Nil
  thus ?thesis
    by (simp add: forward_def forward_from_def init_state_def zero_state_def ebind_def)
next
  case (Cons i rest)
  have xs: "list_all (mat_shape B 1) x" using x by (simp add: tensor_shape_def)
  show ?thesis
    using step_body_zero_state[OF ok xs, of i "[]"]
    by (simp add: forward_def forward_from_def init_state_def init_leaky_def zero_state_def
        Cons)
qed

lemma step_body_st_returned:
  "returned (step_body_st net x step (s, a)) = step_body net x step s"
  by (simp add: step_body_st_def step_body_def Leaky_call_def returned_def ebind_def
      split: sum.splits prod.splits)

lemma loop_st_returned: "returned (loop_st net x steps (s, a)) = loop net x steps s"
proof (induction steps arbitrary: s a)
  case Nil
  show ?case by (simp add: returned_def)
next
  case (Cons i steps)
  show ?case
  proof (cases "step_body_st net x i (s, a)")
    case (Inl e)
    with step_body_st_returned[of net x i s a, symmetric]
    have "step_body net x i s = Inl e" by (simp add: returned_def)
    with Inl show ?thesis by (simp add: ebind_def returned_def)
  next
    case (Inr sa)
    obtain s' a' where sa: "sa = (s', a')" by (cases sa)
    with Inr step_body_st_returned[of net x i s a, symmetric]
    have "step_body net x i s = Inr s'" by (simp add: returned_def)
    with Inr sa Cons.IH[of s' a'] show ?thesis by (simp add: ebind_def)
  qed
qed

lemma forward_st_returned: "returned (forward_st net a x) = forward net x"
proof -
  let ?s0 = "\<lparr>mem_1 = Fresh, mem_2 = Fresh, mem_3 = Fresh, mem_3_rec = []\<rparr>"
  let ?a0 = "\<lparr>mem_in = Fresh, mem_hidden = Fresh, mem_out = Fresh\<rparr>"
  have l: "loop net x (range_py (timesteps net)) ?s0
      = returned (loop_st net x (range_py (timesteps net)) (?s0, ?a0))"
    by (rule loop_st_returned[symmetric])
  show ?thesis
  proof (cases "loop_st net x (range_py (timesteps net)) (?s0, ?a0)")
    case (Inl e)
    with l show ?thesis
      by (simp add: forward_st_def forward_def init_leaky_st_def init_state_def init_leaky_def
          returned_def ebind_def)
  next
    case (Inr sa)
    obtain s' a' where sa: "sa = (s', a')" by (cases sa)
    with Inr l have "loop net x (range_py (timesteps net)) ?s0 = Inr s'"
      by (simp add: returned_def)
    with Inr sa show ?thesis
      by (simp add: forward_st_def forward_def init_leaky_st_def init_state_def init_leaky_def
          returned_def ebind_def split: sum.splits)
  qed
qed

lemma calls_st_returned: "returned (calls_st net a xs) = emap (forward net) xs"
proof (induction xs arbitrary: a)
  case Nil
  show ?case by (simp add: returned_def)
next
  case (Cons x xs)
  show ?case
  proof (cases "forward_st net a x")
    case (Inl e)
    with forward_st_returned[of net a x, symmetric]
    have "forward net x = Inl e" by (simp add: returned_def)
    with Inl show ?thesis by (simp add: returned_def ebind_def)
  next
    case (Inr ya)
    obtain ys a' where ya: "ya = (ys, a')" by (cases ya)
    with Inr forward_st_returned[of net a x, symmetric]
    have f: "forward net x = Inr ys" by (simp add: returned_def)
    show ?thesis
    proof (cases "calls_st net a' xs")
      case (Inl e)
      with Cons.IH[of a', symmetric] have "emap (forward net) xs = Inl e"
        by (simp add: returned_def)
      with Inl Inr ya f show ?thesis by (simp add: returned_def ebind_def)
    next
      case (Inr ra)
      obtain yss a'' where ra: "ra = (yss, a'')" by (cases ra)
      with Inr Cons.IH[of a', symmetric] have "emap (forward net) xs = Inr yss"
        by (simp add: returned_def)
      with Inr ra \<open>forward_st net a x = Inr ya\<close> ya f show ?thesis
        by (simp add: returned_def ebind_def)
    qed
  qed
qed

text \<open>
  C5. The forward pass is a function of the parameters and the input. Whatever the cells
  hold when \<^verbatim>\<open>forward\<close> is called, it returns what the pass from freshly initialised
  potentials returns, although the pass leaves other potentials in the cells than it found;
  so in a sequence of calls on one module every call returns what a first call on its input
  returns, and two calls on the same input return the same output. The potentials the pass
  starts from are zero: for a network with the constructor's shapes and an input of shape
  \<open>[T, B, 1]\<close> the result is that of the loop started from tensors of zeros.
\<close>

theorem forward_pure:
  "returned (forward_st net a x) = forward net x
   \<and> returned (calls_st net a xs) = emap (forward net) xs
   \<and> (Net_ok net \<and> tensor_shape T B 1 x
        \<longrightarrow> forward net x = forward_from (zero_state B (hidden net)) net x)"
  using forward_st_returned calls_st_returned forward_zero_state by blast

theorem forward_pure_witness:
  "Net_ok net_ex \<and> tensor_shape 1 1 1 [[[1]]]
   \<and> forward net_ex [[[1]]] = forward_from (zero_state 1 (hidden net_ex)) net_ex [[[1]]]
   \<and> returned (forward_st net_ex held_ex [[[1]]]) = forward net_ex [[[1]]]
   \<and> returned (calls_st net_ex held_ex [[[[1]]], [[[1]]]])
       = emap (forward net_ex) [[[[1]]], [[[1]]]]
   \<and> forward_st net_ex held_ex [[[1]]]
       = Inr ([[[0]]], \<lparr>mem_in = Pot [[1/2]], mem_hidden = Fresh, mem_out = Pot [[0]]\<rparr>)"
proof -
  have h: "Net_ok net_ex \<and> tensor_shape 1 1 1 [[[1]]]"
    by (simp add: unfold_net_ex Net_ok_def Linear_ok_def mat_shape_def tensor_shape_def)
  have e: "forward_st net_ex held_ex [[[1]]]
       = Inr ([[[0]]], \<lparr>mem_in = Pot [[1/2]], mem_hidden = Fresh, mem_out = Pot [[0]]\<rparr>)"
    by (simp add: unfold_net_ex unfold_forward forward_st_def step_body_st_def Leaky_call_def
        init_leaky_st_def held_ex_def)
  from h e forward_pure[of net_ex held_ex "[[[1]]]" "[[[[1]]], [[[1]]]]" 1 1]
  show ?thesis by blast
qed

subsection \<open>Zero input\<close>


















section \<open>Properties of the dataset\<close>

lemma feature_lst_ok:
  assumes "0 \<le> timesteps'"
  shows "\<exists>fs. emap (\<lambda>idx. ebind (linspace 0 (rand idx) timesteps')
                           (\<lambda>lin_vec. Inr (map (\<lambda>v. [v]) lin_vec)))
              (range_py num_samples') = Inr fs \<and> length fs = nat num_samples'"
proof -
  let ?f = "\<lambda>idx. ebind (linspace 0 (rand idx) timesteps')
                           (\<lambda>lin_vec. Inr (map (\<lambda>v. [v]) lin_vec))"
  let ?g = "\<lambda>idx. case ?f idx of Inr v \<Rightarrow> v"
  have "\<And>idx. ?f idx = Inr (?g idx)"
    using assms by (simp add: linspace_def ebind_def)
  hence "emap ?f (range_py num_samples') = Inr (map ?g (range_py num_samples'))"
    by (intro emap_Inr)
  thus ?thesis by (simp add: range_py_def)
qed

lemma stack_dim1_ok: "fs \<noteq> [] \<Longrightarrow> \<exists>t. stack_dim1 fs = Inr t"
  by (cases fs) (simp_all add: stack_dim1_def)

text \<open>
  C9 (as amended). When at least one sample is requested (\<open>num_samples \<ge> 1\<close>) and
  \<open>timesteps\<close> is not negative, constructing the dataset with a mode other than "linear"
  or "sqrt" raises \<open>NotImplementedError\<close>, and with an accepted mode the construction
  completes and \<open>__len__\<close> returns \<open>num_samples\<close>.
\<close>

theorem RegressionDataset_init_mode:
  assumes "0 < num_samples'" "0 \<le> timesteps'"
  shows "(if mode = ''linear'' \<or> mode = ''sqrt''
          then \<exists>d. RegressionDataset_init rand timesteps' num_samples' mode = Inr d
                 \<and> len d = num_samples'
          else RegressionDataset_init rand timesteps' num_samples' mode
                 = Inl NotImplementedError)"
proof -
  from feature_lst_ok[OF assms(2)] obtain fs
    where a: "emap (\<lambda>idx. ebind (linspace 0 (rand idx) timesteps')
                           (\<lambda>lin_vec. Inr (map (\<lambda>v. [v]) lin_vec)))
              (range_py num_samples') = Inr fs" and l: "length fs = nat num_samples'"
    by blast
  from l assms(1) have "fs \<noteq> []" by auto
  then obtain t where b: "stack_dim1 fs = Inr t" using stack_dim1_ok by blast
  show ?thesis
    unfolding RegressionDataset_init_def a
    by (simp add: ebind_def b len_def Let_def)
qed

theorem RegressionDataset_init_mode_witness:
  "(0::int) < 2 \<and> (0::int) \<le> 3
   \<and> (\<exists>d. RegressionDataset_init rand_ex 3 2 ''sqrt'' = Inr d \<and> len d = 2)
   \<and> RegressionDataset_init rand_ex 3 2 ''cubic'' = Inl NotImplementedError"
proof -
  have h: "(0::int) < 2" "(0::int) \<le> 3" by simp_all
  from RegressionDataset_init_mode[OF h, of "''sqrt''" rand_ex]
  have 1: "\<exists>d. RegressionDataset_init rand_ex 3 2 ''sqrt'' = Inr d \<and> len d = 2"
    by simp
  from RegressionDataset_init_mode[OF h, of "''cubic''" rand_ex]
  have 2: "RegressionDataset_init rand_ex 3 2 ''cubic'' = Inl NotImplementedError"
    by simp
  from h 1 2 show ?thesis by blast
qed

text \<open>
  The claim as stated fails: with \<open>num_samples = 0\<close> the list of features is empty and
  \<^verbatim>\<open>torch.stack\<close> raises before the mode is looked at, for an unknown mode and for an
  accepted one; with a negative \<open>timesteps\<close> \<^verbatim>\<open>torch.linspace\<close> raises.
\<close>

theorem RegressionDataset_init_mode_counterexample:
  "RegressionDataset_init rand_ex 3 0 ''cubic'' = Inl RuntimeError
   \<and> RegressionDataset_init rand_ex 3 0 ''linear'' = Inl RuntimeError
   \<and> RegressionDataset_init rand_ex (- 1) 2 ''linear'' = Inl RuntimeError"
  by (simp add: RegressionDataset_init_def range_py_def ebind_def stack_dim1_def linspace_def
      numeral_2_eq_2)

end
